theory Spec2Isabelle
  imports Main "HOL-Library.Sublist" "HOL-Library.Char_ord" "HOL-Library.List_Lexorder"
    "HOL-Library.Multiset"
begin

section \<open>Data model (schemas.py)\<close>

text \<open>
  A \<open>pathlib.Path\<close> is the list of its components; Python compares two paths by
  comparing these component lists, each component as a string. A string is a list of
  characters and \<open>tag in code\<close> is the contiguous-sublist test \<^const>\<open>sublist\<close>.
\<close>

type_synonym path = "string list"

datatype error =
    ParserSyntaxError string
  | ReadError string
  | ValidationError "string list"

text \<open>
  The libcst tree. A declaration node carries what the collector reads from it: its
  name (\<open>node.name.value\<close>), its rendered text (\<open>cst.Module([node]).code\<close>), its
  start line in the position metadata (\<open>None\<close> where \<open>get_metadata\<close> raises
  \<open>KeyError\<close>) and its children. Every other node only has children.
\<close>

datatype cst =
    FunctionDef string string "int option" "cst list"
  | ClassDef string string "int option" "cst list"
  | Other "cst list"

record node_collection_result =
  name :: string
  line_number :: int
  code :: string
  node_type :: string

text \<open>\<open>TaggedCode\<close> has the fields of \<open>NodeCollectionResult\<close> and the file path.\<close>

record tagged_code = node_collection_result +
  file_path :: path

record extractor_config =
  tag :: string
  target_path :: path
  include_functions :: bool
  include_classes :: bool
  file_pattern :: string

record extraction_result =
  config :: extractor_config
  results :: "tagged_code list"
  processed_files :: int
  skipped_files :: "string list"

text \<open>
  What the program reads from outside: the file system through \<open>pathlib\<close> and the
  parser \<open>cst.parse_module\<close>. \<open>path_rglob\<close> is the enumeration of \<open>rglob\<close> in the
  order the file system yields it.
\<close>

record world =
  path_resolve :: "path \<Rightarrow> path"
  path_exists :: "path \<Rightarrow> bool"
  path_is_file :: "path \<Rightarrow> bool"
  path_rglob :: "path \<Rightarrow> string \<Rightarrow> path list"
  read_text :: "path \<Rightarrow> error + string"
  parse_module :: "string \<Rightarrow> error + cst list"

text \<open>\<open>NodeCollectionResult(...)\<close>: the field \<open>line_number\<close> is declared \<open>ge=1\<close>.\<close>

definition NodeCollectionResult ::
  "string \<Rightarrow> int \<Rightarrow> string \<Rightarrow> string \<Rightarrow> error + node_collection_result" where
  "NodeCollectionResult n l c t =
     (if 1 \<le> l then Inr \<lparr>name = n, line_number = l, code = c, node_type = t\<rparr>
      else Inl (ValidationError [''line_number'']))"

text \<open>
  \<open>TaggedCode(...)\<close>: \<open>line_number\<close> is declared \<open>ge=1\<close> and \<open>validate_node_type\<close>
  accepts \<open>function\<close> and \<open>class\<close> only; pydantic reports every failing field.
\<close>

definition TaggedCode ::
  "path \<Rightarrow> string \<Rightarrow> int \<Rightarrow> string \<Rightarrow> string \<Rightarrow> error + tagged_code" where
  "TaggedCode p n l c t =
     (let errs = (if 1 \<le> l then [] else [''line_number'']) @
                 (if t \<in> set [''function'', ''class''] then [] else [''node_type''])
      in if errs = []
         then Inr \<lparr>name = n, line_number = l, code = c, node_type = t, file_path = p\<rparr>
         else Inl (ValidationError errs))"

text \<open>
  \<open>PurePath.suffix\<close>: with \<open>i\<close> the index of the last dot of the last component
  \<open>name\<close>, the suffix is \<open>name[i:]\<close> when \<open>0 < i < len(name) - 1\<close> and empty
  otherwise. \<open>PurePath.parent\<close> drops the last component.
\<close>

definition path_name :: "path \<Rightarrow> string" where
  "path_name p = (if p = [] then [] else last p)"

definition suffix_of :: "path \<Rightarrow> string" where
  "suffix_of p =
     (let nm = path_name p in
      if CHR ''.'' \<notin> set nm then []
      else let suf = CHR ''.'' # rev (takeWhile (\<lambda>c. c \<noteq> CHR ''.'') (rev nm));
               i = length nm - length suf
           in if 0 < i \<and> i + 1 < length nm then suf else [])"

definition parent :: "path \<Rightarrow> path" where
  "parent p = butlast p"

text \<open>\<open>p.relative_to(b)\<close>: \<open>None\<close> where Python raises \<open>ValueError\<close>.\<close>

definition relative_to :: "path \<Rightarrow> path \<Rightarrow> path option" where
  "relative_to p b = (if prefix b p then Some (drop (length b) p) else None)"

text \<open>
  \<open>ExtractorConfig(...)\<close>: \<open>tag\<close> is declared \<open>min_length=1\<close>;
  \<open>validate_target_path\<close> resolves the path and rejects a path that does not exist and
  a file whose suffix is not \<open>.py\<close>.
\<close>

definition validate_target_path :: "world \<Rightarrow> path \<Rightarrow> string + path" where
  "validate_target_path w v =
     (let p = path_resolve w v in
      if \<not> path_exists w p then Inl ''target_path: path does not exist''
      else if path_is_file w p \<and> suffix_of p \<noteq> ''.py'' then Inl ''target_path: not a Python file''
      else Inr p)"

definition ExtractorConfig ::
  "world \<Rightarrow> string \<Rightarrow> path \<Rightarrow> bool \<Rightarrow> bool \<Rightarrow> string \<Rightarrow> error + extractor_config" where
  "ExtractorConfig w t v inc_f inc_c pat =
     (let tag_errs = (if 1 \<le> length t then [] else [''tag: min_length'']) in
      case validate_target_path w v of
        Inl msg \<Rightarrow> Inl (ValidationError (tag_errs @ [msg]))
      | Inr p \<Rightarrow>
          (if tag_errs = []
           then Inr \<lparr>tag = t, target_path = p, include_functions = inc_f,
                     include_classes = inc_c, file_pattern = pat\<rparr>
           else Inl (ValidationError tag_errs)))"

definition is_single_file :: "world \<Rightarrow> extractor_config \<Rightarrow> bool" where
  "is_single_file w cfg = path_is_file w (target_path cfg)"

definition base_path :: "world \<Rightarrow> extractor_config \<Rightarrow> path" where
  "base_path w cfg = (if is_single_file w cfg then parent (target_path cfg) else target_path cfg)"

text \<open>\<open>ExtractionResult(...)\<close>: \<open>processed_files\<close> is declared \<open>ge=0\<close>.\<close>

definition ExtractionResult ::
  "extractor_config \<Rightarrow> tagged_code list \<Rightarrow> int \<Rightarrow> string list \<Rightarrow> error + extraction_result" where
  "ExtractionResult cfg rs n sk =
     (if 0 \<le> n then Inr \<lparr>config = cfg, results = rs, processed_files = n, skipped_files = sk\<rparr>
      else Inl (ValidationError [''processed_files'']))"

definition total_matches :: "extraction_result \<Rightarrow> nat" where
  "total_matches r = length (results r)"

text \<open>\<open>group_by_file\<close>: the dictionary is a map, filled by the loop over \<open>results\<close>.\<close>

fun group_loop ::
  "tagged_code list \<Rightarrow> (path \<rightharpoonup> tagged_code list) \<Rightarrow> (path \<rightharpoonup> tagged_code list)" where
  "group_loop [] grouped = grouped"
| "group_loop (item # items) grouped =
     group_loop items
       (case grouped (file_path item) of
          None \<Rightarrow> grouped(file_path item \<mapsto> [] @ [item])
        | Some xs \<Rightarrow> grouped(file_path item \<mapsto> xs @ [item]))"

definition group_by_file :: "extraction_result \<Rightarrow> (path \<rightharpoonup> tagged_code list)" where
  "group_by_file r = group_loop (results r) Map.empty"

section \<open>The collector (extractor.py, TagCollector)\<close>

text \<open>
  \<open>_check_node\<close>: render the node, return when the tag is not in the text, take the
  name, read the start line (1 on \<open>KeyError\<close>) and append the candidate. A node that is
  neither a function nor a class is left alone.
\<close>

fun check_node ::
  "string \<Rightarrow> cst \<Rightarrow> string \<Rightarrow> node_collection_result list
     \<Rightarrow> error + node_collection_result list" where
  "check_node tg (FunctionDef nm cd pos ch) ty rs =
     (if \<not> sublist tg cd then Inr rs
      else (case NodeCollectionResult nm (case pos of None \<Rightarrow> 1 | Some l \<Rightarrow> l) cd ty of
              Inl e \<Rightarrow> Inl e
            | Inr r \<Rightarrow> Inr (rs @ [r])))"
| "check_node tg (ClassDef nm cd pos ch) ty rs =
     (if \<not> sublist tg cd then Inr rs
      else (case NodeCollectionResult nm (case pos of None \<Rightarrow> 1 | Some l \<Rightarrow> l) cd ty of
              Inl e \<Rightarrow> Inl e
            | Inr r \<Rightarrow> Inr (rs @ [r])))"
| "check_node tg (Other ch) ty rs = Inr rs"

text \<open>
  The traversal of \<open>wrapper.visit(collector)\<close>: \<open>visit_FunctionDef\<close> and
  \<open>visit_ClassDef\<close> run on a node before its children and return \<open>None\<close>, so the
  children are visited whatever the flags are.
\<close>

fun visit ::
  "string \<Rightarrow> bool \<Rightarrow> bool \<Rightarrow> cst \<Rightarrow> node_collection_result list
     \<Rightarrow> error + node_collection_result list"
and visit_children ::
  "string \<Rightarrow> bool \<Rightarrow> bool \<Rightarrow> cst list \<Rightarrow> node_collection_result list
     \<Rightarrow> error + node_collection_result list" where
  "visit tg inc_f inc_c (FunctionDef nm cd pos ch) rs =
     (case (if inc_f then check_node tg (FunctionDef nm cd pos ch) ''function'' rs else Inr rs) of
        Inl e \<Rightarrow> Inl e
      | Inr rs1 \<Rightarrow> visit_children tg inc_f inc_c ch rs1)"
| "visit tg inc_f inc_c (ClassDef nm cd pos ch) rs =
     (case (if inc_c then check_node tg (ClassDef nm cd pos ch) ''class'' rs else Inr rs) of
        Inl e \<Rightarrow> Inl e
      | Inr rs1 \<Rightarrow> visit_children tg inc_f inc_c ch rs1)"
| "visit tg inc_f inc_c (Other ch) rs = visit_children tg inc_f inc_c ch rs"
| "visit_children tg inc_f inc_c [] rs = Inr rs"
| "visit_children tg inc_f inc_c (n # ns) rs =
     (case visit tg inc_f inc_c n rs of
        Inl e \<Rightarrow> Inl e
      | Inr rs1 \<Rightarrow> visit_children tg inc_f inc_c ns rs1)"

text \<open>A new \<open>TagCollector\<close> has no results; the module's body is visited from it.\<close>

definition collect ::
  "string \<Rightarrow> bool \<Rightarrow> bool \<Rightarrow> cst list \<Rightarrow> error + node_collection_result list" where
  "collect tg inc_f inc_c module = visit_children tg inc_f inc_c module []"

section \<open>The extractor (extractor.py, TagExtractor)\<close>

record tag_extractor =
  self_config :: extractor_config
  self_processed_files :: int
  self_skipped_files :: "string list"
  self_results :: "tagged_code list"

definition TagExtractor :: "extractor_config \<Rightarrow> tag_extractor" where
  "TagExtractor cfg =
     \<lparr>self_config = cfg, self_processed_files = 0, self_skipped_files = [], self_results = []\<rparr>"

definition get_python_files :: "world \<Rightarrow> extractor_config \<Rightarrow> path list" where
  "get_python_files w cfg =
     (if is_single_file w cfg then [target_path cfg]
      else sort (path_rglob w (target_path cfg) (file_pattern cfg)))"

text \<open>The loop of \<open>_process_file\<close> that appends one \<open>TaggedCode\<close> per candidate.\<close>

fun append_tagged ::
  "path \<Rightarrow> node_collection_result list \<Rightarrow> tagged_code list \<Rightarrow> error + tagged_code list" where
  "append_tagged rel [] acc = Inr acc"
| "append_tagged rel (r # rs) acc =
     (case TaggedCode rel (name r) (line_number r) (code r) (node_type r) of
        Inl e \<Rightarrow> Inl e
      | Inr t \<Rightarrow> append_tagged rel rs (acc @ [t]))"

text \<open>
  \<open>_process_file\<close>. Nothing in it catches the exceptions of \<open>read_text\<close>,
  \<open>parse_module\<close> or the constructors: each is a \<open>Inl\<close> result here.
\<close>

definition process_file :: "world \<Rightarrow> tag_extractor \<Rightarrow> path \<Rightarrow> error + tag_extractor" where
  "process_file w ex fp =
     (case read_text w fp of
        Inl e \<Rightarrow> Inl e
      | Inr source_code \<Rightarrow>
          if \<not> sublist (tag (self_config ex)) source_code
          then Inr (ex\<lparr>self_processed_files := self_processed_files ex + 1\<rparr>)
          else
            (case parse_module w source_code of
               Inl e \<Rightarrow> Inl e
             | Inr module \<Rightarrow>
                 (case collect (tag (self_config ex)) (include_functions (self_config ex))
                         (include_classes (self_config ex)) module of
                    Inl e \<Rightarrow> Inl e
                  | Inr collected \<Rightarrow>
                      (let relative_path =
                             (case relative_to fp (base_path w (self_config ex)) of
                                Some rel \<Rightarrow> rel
                              | None \<Rightarrow> fp)
                       in (case append_tagged relative_path collected (self_results ex) of
                             Inl e \<Rightarrow> Inl e
                           | Inr rs \<Rightarrow>
                               Inr (ex\<lparr>self_results := rs,
                                        self_processed_files := self_processed_files ex + 1\<rparr>))))))"

fun process_files :: "world \<Rightarrow> tag_extractor \<Rightarrow> path list \<Rightarrow> error + tag_extractor" where
  "process_files w ex [] = Inr ex"
| "process_files w ex (fp # fps) =
     (case process_file w ex fp of
        Inl e \<Rightarrow> Inl e
      | Inr ex1 \<Rightarrow> process_files w ex1 fps)"

text \<open>\<open>extract\<close> returns the result and leaves the extractor in its new state.\<close>

definition result_of :: "tag_extractor \<Rightarrow> error + tag_extractor \<times> extraction_result" where
  "result_of ex =
     (case ExtractionResult (self_config ex) (self_results ex) (self_processed_files ex)
             (self_skipped_files ex) of
        Inl e \<Rightarrow> Inl e
      | Inr r \<Rightarrow> Inr (ex, r))"

definition "extract" :: "world \<Rightarrow> tag_extractor \<Rightarrow> error + tag_extractor \<times> extraction_result" where
  "extract w ex =
     (let py_files = get_python_files w (self_config ex) in
      if py_files = [] then result_of ex
      else (case process_files w ex py_files of
              Inl e \<Rightarrow> Inl e
            | Inr ex1 \<Rightarrow> result_of ex1))"

text \<open>\<open>extract_tags\<close> of cli.py without its printing: configuration, extractor, run.\<close>

definition extract_tags ::
  "world \<Rightarrow> path \<Rightarrow> string \<Rightarrow> bool \<Rightarrow> bool \<Rightarrow> error + extraction_result" where
  "extract_tags w p tg inc_f inc_c =
     (case ExtractorConfig w tg p inc_f inc_c ''*.py'' of
        Inl e \<Rightarrow> Inl e
      | Inr cfg \<Rightarrow>
          (case extract w (TagExtractor cfg) of
             Inl e \<Rightarrow> Inl e
           | Inr (ex, r) \<Rightarrow> Inr r))"

section \<open>Document order and candidates\<close>

text \<open>
  The declarations of a tree in document order: a node before its children, the
  children from first to last.
\<close>

fun decls :: "cst \<Rightarrow> cst list"
and decls_list :: "cst list \<Rightarrow> cst list" where
  "decls (FunctionDef nm cd pos ch) = FunctionDef nm cd pos ch # decls_list ch"
| "decls (ClassDef nm cd pos ch) = ClassDef nm cd pos ch # decls_list ch"
| "decls (Other ch) = decls_list ch"
| "decls_list [] = []"
| "decls_list (n # ns) = decls n @ decls_list ns"

fun node_code :: "cst \<Rightarrow> string" where
  "node_code (FunctionDef nm cd pos ch) = cd"
| "node_code (ClassDef nm cd pos ch) = cd"
| "node_code (Other ch) = []"


fun node_line :: "cst \<Rightarrow> int" where
  "node_line (FunctionDef nm cd pos ch) = (case pos of None \<Rightarrow> 1 | Some l \<Rightarrow> l)"
| "node_line (ClassDef nm cd pos ch) = (case pos of None \<Rightarrow> 1 | Some l \<Rightarrow> l)"
| "node_line (Other ch) = 1"

text \<open>The candidate that \<open>_check_node\<close> appends for a declaration.\<close>

fun candidate :: "cst \<Rightarrow> node_collection_result" where
  "candidate (FunctionDef nm cd pos ch) =
     \<lparr>name = nm, line_number = (case pos of None \<Rightarrow> 1 | Some l \<Rightarrow> l), code = cd,
      node_type = ''function''\<rparr>"
| "candidate (ClassDef nm cd pos ch) =
     \<lparr>name = nm, line_number = (case pos of None \<Rightarrow> 1 | Some l \<Rightarrow> l), code = cd,
      node_type = ''class''\<rparr>"
| "candidate (Other ch) = \<lparr>name = [], line_number = 1, code = [], node_type = []\<rparr>"

text \<open>The declarations that the collector checks and finds tagged.\<close>

fun selected :: "string \<Rightarrow> bool \<Rightarrow> bool \<Rightarrow> cst \<Rightarrow> bool" where
  "selected tg inc_f inc_c (FunctionDef nm cd pos ch) = (inc_f \<and> sublist tg cd)"
| "selected tg inc_f inc_c (ClassDef nm cd pos ch) = (inc_c \<and> sublist tg cd)"
| "selected tg inc_f inc_c (Other ch) = False"

text \<open>
  The \<open>TaggedCode\<close> that \<open>_process_file\<close> builds from a candidate, and what every
  match of a run under a configuration satisfies.
\<close>

definition tagged :: "path \<Rightarrow> node_collection_result \<Rightarrow> tagged_code" where
  "tagged rel r =
     \<lparr>name = name r, line_number = line_number r, code = code r, node_type = node_type r,
      file_path = rel\<rparr>"

definition admissible :: "extractor_config \<Rightarrow> tagged_code \<Rightarrow> bool" where
  "admissible cfg m \<longleftrightarrow>
     sublist (tag cfg) (code m) \<and> 1 \<le> line_number m \<and>
     (node_type m = ''function'' \<and> include_functions cfg \<or>
      node_type m = ''class'' \<and> include_classes cfg)"

section \<open>Always parsing: \<open>_process_file\<close> without its pre-filter\<close>

text \<open>
  The comparison of the pre-filter speaks of a version that always parses and runs the
  collector. It is \<open>_process_file\<close> with the branch on \<open>tag not in source_code\<close>
  removed, and the same loop and \<open>extract\<close> around it.
\<close>

definition process_file_always_parse ::
  "world \<Rightarrow> tag_extractor \<Rightarrow> path \<Rightarrow> error + tag_extractor" where
  "process_file_always_parse w ex fp =
     (case read_text w fp of
        Inl e \<Rightarrow> Inl e
      | Inr source_code \<Rightarrow>
            (case parse_module w source_code of
               Inl e \<Rightarrow> Inl e
             | Inr module \<Rightarrow>
                 (case collect (tag (self_config ex)) (include_functions (self_config ex))
                         (include_classes (self_config ex)) module of
                    Inl e \<Rightarrow> Inl e
                  | Inr collected \<Rightarrow>
                      (let relative_path =
                             (case relative_to fp (base_path w (self_config ex)) of
                                Some rel \<Rightarrow> rel
                              | None \<Rightarrow> fp)
                       in (case append_tagged relative_path collected (self_results ex) of
                             Inl e \<Rightarrow> Inl e
                           | Inr rs \<Rightarrow>
                               Inr (ex\<lparr>self_results := rs,
                                        self_processed_files := self_processed_files ex + 1\<rparr>))))))"

fun process_files_always_parse ::
  "world \<Rightarrow> tag_extractor \<Rightarrow> path list \<Rightarrow> error + tag_extractor" where
  "process_files_always_parse w ex [] = Inr ex"
| "process_files_always_parse w ex (fp # fps) =
     (case process_file_always_parse w ex fp of
        Inl e \<Rightarrow> Inl e
      | Inr ex1 \<Rightarrow> process_files_always_parse w ex1 fps)"

definition extract_always_parse ::
  "world \<Rightarrow> tag_extractor \<Rightarrow> error + tag_extractor \<times> extraction_result" where
  "extract_always_parse w ex =
     (let py_files = get_python_files w (self_config ex) in
      if py_files = [] then result_of ex
      else (case process_files_always_parse w ex py_files of
              Inl e \<Rightarrow> Inl e
            | Inr ex1 \<Rightarrow> result_of ex1))"

text \<open>
  A file passes the pre-filter safely when it cannot be read, or has the tag, or is
  parsed into a tree whose declarations have the tag in their text only if the file has.
\<close>

definition prefilter_safe :: "world \<Rightarrow> string \<Rightarrow> path \<Rightarrow> bool" where
  "prefilter_safe w tg fp =
     (case read_text w fp of
        Inl e \<Rightarrow> True
      | Inr source_code \<Rightarrow>
          sublist tg source_code \<or>
          (case parse_module w source_code of
             Inl e \<Rightarrow> False
           | Inr module \<Rightarrow>
               list_all (\<lambda>d. \<not> sublist tg (node_code d) \<or> sublist tg source_code)
                 (decls_list module)))"

section \<open>The matches of a result, and a second call on the same extractor\<close>

definition matches_of ::
  "error + tag_extractor \<times> extraction_result \<Rightarrow> tagged_code list option" where
  "matches_of x = (case x of Inl e \<Rightarrow> None | Inr (ex, r) \<Rightarrow> Some (results r))"

definition extract_again ::
  "world \<Rightarrow> error + tag_extractor \<times> extraction_result
     \<Rightarrow> error + tag_extractor \<times> extraction_result" where
  "extract_again w x = (case x of Inl e \<Rightarrow> Inl e | Inr (ex, r) \<Rightarrow> extract w ex)"

section \<open>Test fixtures: a file system in memory\<close>

text \<open>
  The tests of extractor.py write files into a temporary directory and run the
  extractor on it. Here the directory is a list of directories, a list of files with
  their text, and the table of the texts that the parser accepts with their trees; every
  other text is a syntax error. As in \<open>pathlib\<close>, \<open>rglob\<close> yields every path below
  the root whose last component matches the pattern, directories as well as files, here
  in the order of the lists; reading a directory raises \<open>IsADirectoryError\<close>. A
  pattern is matched with \<open>*\<close> for any characters and \<open>?\<close> for one character; the
  fixtures have no pattern with a bracket class.
\<close>

fun glob_match :: "string \<Rightarrow> string \<Rightarrow> bool" where
  "glob_match [] s = (s = [])"
| "glob_match (c # cs) [] = (c = CHR ''*'' \<and> glob_match cs [])"
| "glob_match (c # cs) (x # xs) =
     (if c = CHR ''*'' then glob_match cs (x # xs) \<or> glob_match (c # cs) xs
      else if c = CHR ''?'' then glob_match cs xs
      else c = x \<and> glob_match cs xs)"

definition fixture_world ::
  "path list \<Rightarrow> (path \<times> string) list \<Rightarrow> (string \<times> cst list) list \<Rightarrow> world" where
  "fixture_world dirs files trees =
     \<lparr>path_resolve = (\<lambda>p. p),
      path_exists = (\<lambda>p. p \<in> set (dirs @ map fst files)),
      path_is_file = (\<lambda>p. p \<in> set (map fst files)),
      path_rglob = (\<lambda>root pat.
        filter (\<lambda>p. strict_prefix root p \<and> glob_match pat (path_name p))
          (dirs @ map fst files)),
      read_text = (\<lambda>p. if p \<in> set dirs then Inl (ReadError ''IsADirectoryError'')
                        else (case map_of files p of
                                None \<Rightarrow> Inl (ReadError ''FileNotFoundError'')
                              | Some s \<Rightarrow> Inr s)),
      parse_module = (\<lambda>s. case map_of trees s of
                             None \<Rightarrow> Inl (ParserSyntaxError s)
                           | Some t \<Rightarrow> Inr t)\<rparr>"

definition tmpdir :: path where
  "tmpdir = [''/'', ''tmp'']"

definition nl :: string where
  "nl = [CHR 0x0A]"

text \<open>
  \<open>test_extract_from_directory\<close>: two files with a tagged function each, and a text
  file beside them.
\<close>

definition func1_code :: string where
  "func1_code = ''def func1(): pass  # TODO: implement this'' @ nl"

definition func2_code :: string where
  "func2_code = ''def func2(): pass  # TODO: implement this'' @ nl"

definition two_files_world :: world where
  "two_files_world =
     fixture_world [tmpdir]
       [(tmpdir @ [''test2.py''], func2_code), (tmpdir @ [''notes.txt''], ''TODO: write''),
        (tmpdir @ [''test1.py''], func1_code)]
       [(func1_code, [FunctionDef ''func1'' func1_code (Some 1) [Other []]]),
        (func2_code, [FunctionDef ''func2'' func2_code (Some 1) [Other []]])]"

definition two_files_config :: extractor_config where
  "two_files_config =
     \<lparr>tag = ''TODO:'', target_path = tmpdir, include_functions = True,
      include_classes = True, file_pattern = ''*.py''\<rparr>"

text \<open>The same directory listed by the file system in the other order.\<close>

definition two_files_world_reordered :: world where
  "two_files_world_reordered =
     fixture_world [tmpdir]
       [(tmpdir @ [''test1.py''], func1_code), (tmpdir @ [''notes.txt''], ''TODO: write''),
        (tmpdir @ [''test2.py''], func2_code)]
       [(func1_code, [FunctionDef ''func1'' func1_code (Some 1) [Other []]]),
        (func2_code, [FunctionDef ''func2'' func2_code (Some 1) [Other []]])]"

text \<open>
  \<open>test_extract_only_functions\<close> and \<open>test_extract_only_classes\<close>: one file with a
  tagged function and a tagged class.
\<close>

definition test_func_code :: string where
  "test_func_code = ''def test_func(): pass  # TODO: implement this'' @ nl"

definition test_class_code :: string where
  "test_class_code = ''class TestClass: pass  # TODO: implement this'' @ nl"

definition both_kinds_module :: "cst list" where
  "both_kinds_module =
     [FunctionDef ''test_func'' test_func_code (Some 1) [Other []],
      ClassDef ''TestClass'' test_class_code (Some 2) [Other []]]"

definition both_kinds_world :: world where
  "both_kinds_world =
     fixture_world [tmpdir]
       [(tmpdir @ [''test.py''], test_func_code @ test_class_code)]
       [(test_func_code @ test_class_code, both_kinds_module)]"

definition only_functions_config :: extractor_config where
  "only_functions_config =
     \<lparr>tag = ''TODO:'', target_path = tmpdir @ [''test.py''], include_functions = True,
      include_classes = False, file_pattern = ''*.py''\<rparr>"

definition only_classes_config :: extractor_config where
  "only_classes_config =
     \<lparr>tag = ''TODO:'', target_path = tmpdir @ [''test.py''], include_functions = False,
      include_classes = True, file_pattern = ''*.py''\<rparr>"

text \<open>
  A method with the tag inside a class. \<open>cst.Module([node]).code\<close> renders the method
  from the left margin, without the indentation that it has inside the class.
\<close>

definition inner_code :: string where
  "inner_code = ''def inner(self):'' @ nl @ ''    pass  # TODO: x'' @ nl"

definition outer_code :: string where
  "outer_code =
     ''class Outer:'' @ nl @ ''    def inner(self):'' @ nl @ ''        pass  # TODO: x'' @ nl"

definition inner_node :: cst where
  "inner_node = FunctionDef ''inner'' inner_code (Some 2) [Other []]"

definition outer_node :: cst where
  "outer_node = ClassDef ''Outer'' outer_code (Some 1) [Other [inner_node]]"



text \<open>A directory with a file that the parser rejects and a file that it accepts.\<close>

definition broken_code :: string where
  "broken_code = ''def broken(:  # TODO: fix'' @ nl"

definition broken_world :: world where
  "broken_world =
     fixture_world [tmpdir]
       [(tmpdir @ [''broken.py''], broken_code), (tmpdir @ [''test1.py''], func1_code)]
       [(func1_code, [FunctionDef ''func1'' func1_code (Some 1) [Other []]])]"

definition fixme_config :: extractor_config where
  "fixme_config =
     \<lparr>tag = ''FIXME:'', target_path = tmpdir, include_functions = True,
      include_classes = True, file_pattern = ''*.py''\<rparr>"

text \<open>A directory that holds a file and a directory with a name that ends in \<open>.py\<close>.\<close>

definition package_dir_world :: world where
  "package_dir_world =
     fixture_world [tmpdir, tmpdir @ [''pkg.py'']]
       [(tmpdir @ [''test1.py''], func1_code)]
       [(func1_code, [FunctionDef ''func1'' func1_code (Some 1) [Other []]])]"

text \<open>\<open>test_group_by_file\<close> of schemas.py: three matches in two files.\<close>

definition tagged_code1 :: tagged_code where
  "tagged_code1 =
     \<lparr>name = ''func1'', line_number = 10, code = ''def func1(): pass'',
      node_type = ''function'', file_path = [''test1.py'']\<rparr>"

definition tagged_code2 :: tagged_code where
  "tagged_code2 =
     \<lparr>name = ''func2'', line_number = 20, code = ''def func2(): pass'',
      node_type = ''function'', file_path = [''test1.py'']\<rparr>"

definition tagged_code3 :: tagged_code where
  "tagged_code3 =
     \<lparr>name = ''func3'', line_number = 30, code = ''def func3(): pass'',
      node_type = ''function'', file_path = [''test2.py'']\<rparr>"

definition grouped_result :: extraction_result where
  "grouped_result =
     \<lparr>config = two_files_config, results = [tagged_code1, tagged_code3, tagged_code2],
      processed_files = 2, skipped_files = []\<rparr>"

section \<open>What the collector returns\<close>

text \<open>
  The traversal fails only on a tagged declaration whose line is below 1; otherwise it
  appends the candidates of the tagged declarations of the enabled kinds, in document
  order.
\<close>

lemma visit_char:
  "visit tg f c n rs =
     (if list_all (\<lambda>d. 1 \<le> node_line d) (filter (selected tg f c) (decls n))
      then Inr (rs @ map candidate (filter (selected tg f c) (decls n)))
      else Inl (ValidationError [''line_number'']))"
  and visit_children_char:
  "visit_children tg f c ns rs =
     (if list_all (\<lambda>d. 1 \<le> node_line d) (filter (selected tg f c) (decls_list ns))
      then Inr (rs @ map candidate (filter (selected tg f c) (decls_list ns)))
      else Inl (ValidationError [''line_number'']))"
proof (induction tg f c n rs and tg f c ns rs rule: visit_visit_children.induct)
  case (1 tg inc_f inc_c nm cd pos ch rs)
  then show ?case by (auto simp: NodeCollectionResult_def split: sum.splits)
next
  case (2 tg inc_f inc_c nm cd pos ch rs)
  then show ?case by (auto simp: NodeCollectionResult_def split: sum.splits)
next
  case (3 tg inc_f inc_c ch rs)
  then show ?case by simp
next
  case (4 tg inc_f inc_c rs)
  then show ?case by simp
next
  case (5 tg inc_f inc_c n ns rs)
  then show ?case by (auto split: sum.splits)
qed


lemma selected_code: "selected tg f c d \<Longrightarrow> sublist tg (node_code d)"
  by (cases d) auto

lemma selected_kind:
  "selected tg f c d \<Longrightarrow>
     node_type (candidate d) = ''function'' \<and> f \<or> node_type (candidate d) = ''class'' \<and> c"
  by (cases d) auto

lemma candidate_fields:
  "code (candidate d) = node_code d" "line_number (candidate d) = node_line d"
  by (cases d; simp)+

lemma collect_Inr:
  assumes "collect tg f c module = Inr cs"
  shows "cs = map candidate (filter (selected tg f c) (decls_list module))"
    and "list_all (\<lambda>d. 1 \<le> node_line d) (filter (selected tg f c) (decls_list module))"
  using assms unfolding collect_def visit_children_char by (auto split: if_splits)

section \<open>What a run adds to the extractor\<close>

lemma append_tagged_Inr:
  "append_tagged rel cs acc = Inr rs \<Longrightarrow> rs = acc @ map (tagged rel) cs"
proof (induction cs arbitrary: acc)
  case Nil
  then show ?case by simp
next
  case (Cons c cs)
  from Cons.prems have "append_tagged rel cs (acc @ [tagged rel c]) = Inr rs"
    by (simp add: TaggedCode_def tagged_def split: if_splits)
  from Cons.IH [OF this] show ?case by simp
qed

lemma process_file_Inr:
  assumes "process_file w ex fp = Inr ex1"
  shows "self_config ex1 = self_config ex"
    and "self_skipped_files ex1 = self_skipped_files ex"
    and "self_processed_files ex1 = self_processed_files ex + 1"
    and "\<exists>new. self_results ex1 = self_results ex @ new \<and>
           list_all (admissible (self_config ex)) new"
proof -
  let ?cfg = "self_config ex"
  show "self_config ex1 = self_config ex" "self_skipped_files ex1 = self_skipped_files ex"
    "self_processed_files ex1 = self_processed_files ex + 1"
    using assms by (auto simp: process_file_def Let_def split: sum.splits if_splits)
  show "\<exists>new. self_results ex1 = self_results ex @ new \<and> list_all (admissible ?cfg) new"
  proof (cases "read_text w fp")
    case (Inl e)
    with assms show ?thesis by (simp add: process_file_def)
  next
    case (Inr src)
    show ?thesis
    proof (cases "sublist (tag ?cfg) src")
      case False
      with assms Inr have "self_results ex1 = self_results ex"
        by (auto simp: process_file_def)
      then show ?thesis by simp
    next
      case True
      with assms Inr obtain module cs rel where
        c: "collect (tag ?cfg) (include_functions ?cfg) (include_classes ?cfg) module = Inr cs"
        and a: "append_tagged rel cs (self_results ex) = Inr (self_results ex1)"
        by (auto simp: process_file_def Let_def split: sum.splits)
      let ?sel = "selected (tag ?cfg) (include_functions ?cfg) (include_classes ?cfg)"
      have r: "self_results ex1 = self_results ex @ map (tagged rel) cs"
        using append_tagged_Inr [OF a] .
      have "admissible ?cfg (tagged rel (candidate d))"
        if "d \<in> set (filter ?sel (decls_list module))" for d
      proof -
        from that have s: "?sel d" by simp
        from that collect_Inr(2) [OF c] have "1 \<le> node_line d"
          by (auto simp: list_all_iff)
        with selected_code [OF s] selected_kind [OF s] show ?thesis
          by (auto simp: admissible_def tagged_def candidate_fields)
      qed
      then have "list_all (admissible ?cfg) (map (tagged rel) cs)"
        unfolding collect_Inr(1) [OF c] by (auto simp: list_all_iff)
      with r show ?thesis by blast
    qed
  qed
qed

lemma process_files_Inr:
  assumes "process_files w ex fps = Inr ex1"
  shows "self_config ex1 = self_config ex \<and>
         self_skipped_files ex1 = self_skipped_files ex \<and>
         self_processed_files ex1 = self_processed_files ex + int (length fps) \<and>
         (\<exists>new. self_results ex1 = self_results ex @ new \<and>
            list_all (admissible (self_config ex)) new)"
  using assms
proof (induction fps arbitrary: ex)
  case Nil
  then show ?case by simp
next
  case (Cons fp fps)
  then obtain ex0 where p: "process_file w ex fp = Inr ex0"
    and q: "process_files w ex0 fps = Inr ex1"
    by (auto split: sum.splits)
  from process_file_Inr [OF p] Cons.IH [OF q] show ?case
    by auto
qed

lemma extract_Inr:
  assumes "extract w ex = Inr (ex1, r)"
  shows "config r = self_config ex"
    and "\<exists>new. results r = self_results ex @ new \<and> list_all (admissible (self_config ex)) new"
    and "results r = self_results ex1"
proof -
  have "config r = self_config ex \<and> results r = self_results ex1 \<and>
      (\<exists>new. results r = self_results ex @ new \<and> list_all (admissible (self_config ex)) new)"
  proof (cases "get_python_files w (self_config ex) = []")
    case True
    with assms show ?thesis
      by (auto simp: extract_def result_of_def ExtractionResult_def split: if_splits)
  next
    case False
    with assms obtain ex0 where p: "process_files w ex (get_python_files w (self_config ex)) = Inr ex0"
      and q: "result_of ex0 = Inr (ex1, r)"
      by (auto simp: extract_def Let_def split: sum.splits)
    from q have "config r = self_config ex0" "results r = self_results ex0" "ex1 = ex0"
      by (auto simp: result_of_def ExtractionResult_def split: if_splits)
    with process_files_Inr [OF p] show ?thesis by simp
  qed
  then show "config r = self_config ex"
    and "\<exists>new. results r = self_results ex @ new \<and> list_all (admissible (self_config ex)) new"
    and "results r = self_results ex1" by metis+
qed

lemma group_loop_char:
  "group_loop items g p =
     (case g p of
        None \<Rightarrow> (if filter (\<lambda>m. file_path m = p) items = [] then None
                 else Some (filter (\<lambda>m. file_path m = p) items))
      | Some xs \<Rightarrow> Some (xs @ filter (\<lambda>m. file_path m = p) items))"
  by (induction items arbitrary: g) (auto split: option.splits)

lemma sort_mset_eq:
  fixes xs ys :: "'a::linorder list"
  assumes "mset xs = mset ys"
  shows "sort xs = sort ys"
  by (rule properties_for_sort) (simp_all add: assms)



section \<open>Nested declarations in document order\<close>



section \<open>The two kinds are collected independently\<close>

lemma selected_without_classes:
  "(selected tg f True d \<and> node_type (candidate d) = ''function'') = selected tg f False d"
  by (cases d) auto

lemma selected_without_functions:
  "(selected tg True c d \<and> node_type (candidate d) = ''class'') = selected tg False c d"
  by (cases d) auto

lemma filter_candidates:
  "filter P (map candidate (filter Q ds)) = map candidate (filter (\<lambda>d. Q d \<and> P (candidate d)) ds)"
  by (induction ds) auto

section \<open>The pre-filter\<close>

lemma collect_untagged:
  assumes "list_all (\<lambda>d. \<not> sublist tg (node_code d)) (decls_list module)"
  shows "collect tg f c module = Inr []"
proof -
  have "filter (selected tg f c) (decls_list module) = []"
    using assms selected_code [of tg f c] by (auto simp: list_all_iff filter_empty_conv)
  then show ?thesis
    by (simp add: collect_def visit_children_char)
qed

lemma process_file_prefilter:
  assumes "prefilter_safe w (tag (self_config ex)) fp"
  shows "process_file w ex fp = process_file_always_parse w ex fp"
proof (cases "read_text w fp")
  case (Inl e)
  then show ?thesis
    by (simp add: process_file_def process_file_always_parse_def)
next
  case (Inr src)
  show ?thesis
  proof (cases "sublist (tag (self_config ex)) src")
    case True
    with Inr show ?thesis
      by (simp add: process_file_def process_file_always_parse_def)
  next
    case False
    with assms Inr obtain module where p: "parse_module w src = Inr module"
      and u: "list_all (\<lambda>d. \<not> sublist (tag (self_config ex)) (node_code d)) (decls_list module)"
      by (auto simp: prefilter_safe_def list_all_iff split: sum.splits)
    from Inr False p collect_untagged [OF u] show ?thesis
      by (simp add: process_file_def process_file_always_parse_def)
  qed
qed

lemma process_files_prefilter:
  assumes "list_all (prefilter_safe w (tag (self_config ex))) fps"
  shows "process_files w ex fps = process_files_always_parse w ex fps"
  using assms
proof (induction fps arbitrary: ex)
  case Nil
  then show ?case by simp
next
  case (Cons fp fps)
  then have s: "prefilter_safe w (tag (self_config ex)) fp"
    and r: "list_all (prefilter_safe w (tag (self_config ex))) fps"
    by simp_all
  show ?case
  proof (cases "process_file w ex fp")
    case (Inl e)
    moreover from Inl process_file_prefilter [OF s]
    have "process_file_always_parse w ex fp = Inl e" by simp
    ultimately show ?thesis by simp
  next
    case (Inr ex1)
    from process_file_Inr(1) [OF Inr] r
    have "list_all (prefilter_safe w (tag (self_config ex1))) fps" by simp
    note ih = Cons.IH [OF this]
    from Inr process_file_prefilter [OF s]
    have "process_file_always_parse w ex fp = Inr ex1" by simp
    with Inr ih show ?thesis by simp
  qed
qed

section \<open>File discovery\<close>

text \<open>
  What holds of \<open>_get_python_files\<close>: a target that is a file is returned alone;
  otherwise the result is what \<open>rglob\<close> yields for the pattern, sorted (paths compare
  by their components), whatever the order in which the file system yields it.
\<close>

lemma discovery_sorted:
  "(is_single_file w cfg \<longrightarrow> get_python_files w cfg = [target_path cfg]) \<and>
   (\<not> is_single_file w cfg \<longrightarrow>
      sorted (get_python_files w cfg) \<and>
      mset (get_python_files w cfg) = mset (path_rglob w (target_path cfg) (file_pattern cfg)) \<and>
      (\<forall>w'. \<not> is_single_file w' cfg \<and>
            mset (path_rglob w' (target_path cfg) (file_pattern cfg)) =
            mset (path_rglob w (target_path cfg) (file_pattern cfg)) \<longrightarrow>
            get_python_files w' cfg = get_python_files w cfg))"
  by (auto simp: get_python_files_def intro: sort_mset_eq)

lemma discovery_sorted_example:
  "\<not> is_single_file two_files_world two_files_config \<and>
   path_rglob two_files_world tmpdir ''*.py'' = [tmpdir @ [''test2.py''], tmpdir @ [''test1.py'']] \<and>
   get_python_files two_files_world two_files_config =
     [tmpdir @ [''test1.py''], tmpdir @ [''test2.py'']] \<and>
   sorted (get_python_files two_files_world two_files_config) \<and>
   get_python_files two_files_world_reordered two_files_config =
     get_python_files two_files_world two_files_config \<and>
   is_single_file both_kinds_world only_functions_config \<and>
   get_python_files both_kinds_world only_functions_config = [tmpdir @ [''test.py'']]"
proof -
  have d: "\<not> is_single_file two_files_world two_files_config"
    and d': "\<not> is_single_file two_files_world_reordered two_files_config"
    and f: "is_single_file both_kinds_world only_functions_config"
    by code_simp+
  have g1: "path_rglob two_files_world tmpdir ''*.py'' =
              [tmpdir @ [''test2.py''], tmpdir @ [''test1.py'']]"
    and g2: "path_rglob two_files_world_reordered tmpdir ''*.py'' =
              [tmpdir @ [''test1.py''], tmpdir @ [''test2.py'']]"
    and l: "get_python_files two_files_world two_files_config =
              [tmpdir @ [''test1.py''], tmpdir @ [''test2.py'']]"
    by code_simp+
  have t: "target_path two_files_config = tmpdir" "file_pattern two_files_config = ''*.py''"
    "target_path only_functions_config = tmpdir @ [''test.py'']"
    by (simp_all add: two_files_config_def only_functions_config_def)
  have m: "mset (path_rglob two_files_world_reordered tmpdir ''*.py'') =
           mset (path_rglob two_files_world tmpdir ''*.py'')"
    unfolding g1 g2 by simp
  note a = discovery_sorted [of two_files_world two_files_config, unfolded t]
  note b = discovery_sorted [of both_kinds_world only_functions_config, unfolded t]
  from a d have s: "sorted (get_python_files two_files_world two_files_config)"
    by blast
  from a d d' m have r: "get_python_files two_files_world_reordered two_files_config =
     get_python_files two_files_world two_files_config"
    by blast
  from b f have o: "get_python_files both_kinds_world only_functions_config = [tmpdir @ [''test.py'']]"
    by blast
  from d g1 l s r f o show ?thesis
    by blast
qed

section \<open>A second call on the same extractor\<close>

text \<open>
  \<open>_results\<close> and \<open>_processed_files\<close> are set in \<open>__init__\<close> only, so a second
  call of \<open>extract\<close> on the same object returns the matches of the first call and
  its own. No caller in the repository does this: each run builds a new extractor.
\<close>

lemma second_call_accumulates:
  "map_option length (matches_of (extract two_files_world (TagExtractor two_files_config))) =
     Some 2 \<and>
   map_option length (matches_of (extract_again two_files_world
      (extract two_files_world (TagExtractor two_files_config)))) = Some 4"
  by code_simp

section \<open>The claims\<close>

text \<open>
  C1. A file that has the tag and that the parser rejects should be recorded in
  \<open>skipped_files\<close>, not counted, and the run should go on. The code has no handler:
  in the directory with \<open>broken.py\<close> and \<open>test1.py\<close> the run ends with the parser's
  error and returns no result.
\<close>

theorem parse_failure_raises:
  "extract broken_world (TagExtractor two_files_config) = Inl (ParserSyntaxError broken_code)"
  by code_simp



text \<open>
  C3. In the result of a run, the text of every match has the configuration's tag and
  its line number is at least 1; a tagged declaration without position metadata gets
  line 1.
\<close>

theorem matches_contain_tag_and_line:
  "(extract w (TagExtractor cfg) = Inr (ex, r) \<longrightarrow>
      (\<forall>m \<in> set (results r). sublist (tag (config r)) (code m) \<and> 1 \<le> line_number m)) \<and>
   (sublist tg cd \<longrightarrow>
      check_node tg (FunctionDef nm cd None ch) ty rs =
        Inr (rs @ [\<lparr>name = nm, line_number = 1, code = cd, node_type = ty\<rparr>]) \<and>
      check_node tg (ClassDef nm cd None ch) ty rs =
        Inr (rs @ [\<lparr>name = nm, line_number = 1, code = cd, node_type = ty\<rparr>]))"
proof (intro conjI impI)
  assume e: "extract w (TagExtractor cfg) = Inr (ex, r)"
  from extract_Inr(1,2) [OF e]
  have "config r = cfg" "list_all (admissible cfg) (results r)"
    by (auto simp: TagExtractor_def)
  then show "\<forall>m \<in> set (results r). sublist (tag (config r)) (code m) \<and> 1 \<le> line_number m"
    by (simp add: list_all_iff admissible_def)
next
  assume "sublist tg cd"
  then show "check_node tg (FunctionDef nm cd None ch) ty rs =
        Inr (rs @ [\<lparr>name = nm, line_number = 1, code = cd, node_type = ty\<rparr>])"
    by (simp add: NodeCollectionResult_def)
next
  assume "sublist tg cd"
  then show "check_node tg (ClassDef nm cd None ch) ty rs =
        Inr (rs @ [\<lparr>name = nm, line_number = 1, code = cd, node_type = ty\<rparr>])"
    by (simp add: NodeCollectionResult_def)
qed

theorem matches_contain_tag_and_line_witness:
  "\<exists>ex r. extract two_files_world (TagExtractor two_files_config) = Inr (ex, r) \<and>
      length (results r) = 2 \<and>
      list_all (\<lambda>m. sublist (tag (config r)) (code m) \<and> 1 \<le> line_number m) (results r) \<and>
      sublist ''TODO:'' inner_code \<and>
      check_node ''TODO:'' (FunctionDef ''inner'' inner_code None []) ''function'' [] =
        Inr [\<lparr>name = ''inner'', line_number = 1, code = inner_code, node_type = ''function''\<rparr>]"
proof -
  let ?run = "extract two_files_world (TagExtractor two_files_config)"
  have e: "?run = Inr (fst (projr ?run), snd (projr ?run))"
    and l: "length (results (snd (projr ?run))) = 2"
    by code_simp+
  have s: "sublist ''TODO:'' inner_code"
    by code_simp
  note t = matches_contain_tag_and_line
         [of two_files_world two_files_config "fst (projr ?run)" "snd (projr ?run)"
             "''TODO:''" inner_code "''inner''" "[]" "''function''" "[]"]
  from t e have a: "list_all (\<lambda>m. sublist (tag (config (snd (projr ?run)))) (code m) \<and>
                      1 \<le> line_number m) (results (snd (projr ?run)))"
    unfolding list_all_iff by blast
  from t s have c: "check_node ''TODO:'' (FunctionDef ''inner'' inner_code None []) ''function'' [] =
        Inr [\<lparr>name = ''inner'', line_number = 1, code = inner_code, node_type = ''function''\<rparr>]"
    by simp
  from e l a s c show ?thesis
    by blast
qed




text \<open>
  C5, as stated, fails for a file that has no tag and that the parser rejects: the
  pre-filter counts the file as processed and the run returns a result, where the run
  that always parses ends with the parser's error.
\<close>

theorem prefilter_skips_unparsable:
  "read_text broken_world (tmpdir @ [''broken.py'']) = Inr broken_code \<and>
   \<not> sublist (tag fixme_config) broken_code \<and>
   matches_of (extract broken_world (TagExtractor fixme_config)) = Some [] \<and>
   extract_always_parse broken_world (TagExtractor fixme_config) =
     Inl (ParserSyntaxError broken_code) \<and>
   extract broken_world (TagExtractor fixme_config) \<noteq>
     extract_always_parse broken_world (TagExtractor fixme_config)"
proof -
  have r: "read_text broken_world (tmpdir @ [''broken.py'']) = Inr broken_code"
    and n: "\<not> sublist (tag fixme_config) broken_code"
    and a: "matches_of (extract broken_world (TagExtractor fixme_config)) = Some []"
    and b: "extract_always_parse broken_world (TagExtractor fixme_config) =
              Inl (ParserSyntaxError broken_code)"
    by code_simp+
  from a b have "extract broken_world (TagExtractor fixme_config) \<noteq>
     extract_always_parse broken_world (TagExtractor fixme_config)"
    by (auto simp: matches_of_def)
  with r n a b show ?thesis by blast
qed

text \<open>
  C5, amended. When every discovered file without the tag is parsed successfully into a
  tree whose declarations have the tag in their rendered text only if the file's text
  has it, the run with the pre-filter and the run that always parses return the same
  result; and a readable file without the tag adds no match and increments
  \<open>processed_files\<close>.
\<close>

theorem prefilter_preserves_result:
  "(list_all (prefilter_safe w (tag (self_config ex))) (get_python_files w (self_config ex)) \<longrightarrow>
      extract w ex = extract_always_parse w ex) \<and>
   (read_text w fp = Inr src \<and> \<not> sublist (tag (self_config ex)) src \<longrightarrow>
      process_file w ex fp = Inr (ex\<lparr>self_processed_files := self_processed_files ex + 1\<rparr>))"
proof (intro conjI impI)
  assume "list_all (prefilter_safe w (tag (self_config ex))) (get_python_files w (self_config ex))"
  note p = process_files_prefilter [OF this]
  show "extract w ex = extract_always_parse w ex"
    unfolding extract_def extract_always_parse_def Let_def p by (rule refl)
next
  assume "read_text w fp = Inr src \<and> \<not> sublist (tag (self_config ex)) src"
  then show "process_file w ex fp = Inr (ex\<lparr>self_processed_files := self_processed_files ex + 1\<rparr>)"
    by (simp add: process_file_def)
qed

theorem prefilter_preserves_result_witness:
  "list_all (prefilter_safe two_files_world ''FIXME:'') [tmpdir @ [''test1.py''], tmpdir @ [''test2.py'']] \<and>
   extract two_files_world (TagExtractor fixme_config) =
     extract_always_parse two_files_world (TagExtractor fixme_config) \<and>
   read_text two_files_world (tmpdir @ [''test1.py'']) = Inr func1_code \<and>
   \<not> sublist ''FIXME:'' func1_code \<and>
   process_file two_files_world (TagExtractor fixme_config) (tmpdir @ [''test1.py'']) =
     Inr ((TagExtractor fixme_config)\<lparr>self_processed_files := 1\<rparr>)"
proof -
  have c: "self_config (TagExtractor fixme_config) = fixme_config" "tag fixme_config = ''FIXME:''"
    "self_processed_files (TagExtractor fixme_config) = 0"
    by (simp_all add: TagExtractor_def fixme_config_def)
  have g: "get_python_files two_files_world fixme_config =
             [tmpdir @ [''test1.py''], tmpdir @ [''test2.py'']]"
    by code_simp
  have s: "list_all (prefilter_safe two_files_world ''FIXME:'')
             [tmpdir @ [''test1.py''], tmpdir @ [''test2.py'']]"
    by code_simp
  have r: "read_text two_files_world (tmpdir @ [''test1.py'']) = Inr func1_code"
    and n: "\<not> sublist ''FIXME:'' func1_code"
    by code_simp+
  from prefilter_preserves_result
         [of two_files_world "TagExtractor fixme_config" "tmpdir @ [''test1.py'']" func1_code,
          unfolded c g] s r n
  show ?thesis
    by simp
qed

text \<open>
  The condition on the rendered text is needed: for a tree whose declaration is rendered
  with the tag although the file's text has none, the two versions differ.
\<close>

lemma unfaithful_rendering_breaks_prefilter:
  "process_file (fixture_world [] [([''f.py''], ''x'')] [(''x'', [FunctionDef ''f'' ''y'' None []])])
     (TagExtractor \<lparr>tag = ''y'', target_path = [''f.py''], include_functions = True,
        include_classes = True, file_pattern = ''*.py''\<rparr>) [''f.py''] \<noteq>
   process_file_always_parse
     (fixture_world [] [([''f.py''], ''x'')] [(''x'', [FunctionDef ''f'' ''y'' None []])])
     (TagExtractor \<lparr>tag = ''y'', target_path = [''f.py''], include_functions = True,
        include_classes = True, file_pattern = ''*.py''\<rparr>) [''f.py'']"
  by code_simp

text \<open>
  C6. With functions included and classes excluded, every match of a run is a function;
  with classes included and functions excluded, every match is a class.
\<close>

theorem kinds_follow_flags:
  assumes "extract w (TagExtractor cfg) = Inr (ex, r)"
  shows "(include_functions cfg \<and> \<not> include_classes cfg \<longrightarrow>
            (\<forall>m \<in> set (results r). node_type m = ''function'')) \<and>
         (include_classes cfg \<and> \<not> include_functions cfg \<longrightarrow>
            (\<forall>m \<in> set (results r). node_type m = ''class''))"
proof -
  from extract_Inr(2) [OF assms] have "list_all (admissible cfg) (results r)"
    by (auto simp: TagExtractor_def)
  then show ?thesis by (auto simp: list_all_iff admissible_def)
qed

theorem kinds_follow_flags_witness:
  "include_functions only_functions_config \<and> \<not> include_classes only_functions_config \<and>
   (\<exists>ex r. extract both_kinds_world (TagExtractor only_functions_config) = Inr (ex, r) \<and>
      length (results r) = 1 \<and> list_all (\<lambda>m. node_type m = ''function'') (results r)) \<and>
   include_classes only_classes_config \<and> \<not> include_functions only_classes_config \<and>
   (\<exists>ex r. extract both_kinds_world (TagExtractor only_classes_config) = Inr (ex, r) \<and>
      length (results r) = 1 \<and> list_all (\<lambda>m. node_type m = ''class'') (results r))"
proof -
  let ?run = "extract both_kinds_world (TagExtractor only_functions_config)"
  let ?run' = "extract both_kinds_world (TagExtractor only_classes_config)"
  have e: "?run = Inr (fst (projr ?run), snd (projr ?run))"
    and l: "length (results (snd (projr ?run))) = 1"
    and e': "?run' = Inr (fst (projr ?run'), snd (projr ?run'))"
    and l': "length (results (snd (projr ?run'))) = 1"
    by code_simp+
  have f: "include_functions only_functions_config \<and> \<not> include_classes only_functions_config"
    by (simp add: only_functions_config_def)
  have f': "include_classes only_classes_config \<and> \<not> include_functions only_classes_config"
    by (simp add: only_classes_config_def)
  from kinds_follow_flags [OF e] f
  have a: "list_all (\<lambda>m. node_type m = ''function'') (results (snd (projr ?run)))"
    unfolding list_all_iff by blast
  from kinds_follow_flags [OF e'] f'
  have a': "list_all (\<lambda>m. node_type m = ''class'') (results (snd (projr ?run')))"
    unfolding list_all_iff by blast
  from e l a have x: "\<exists>ex r. ?run = Inr (ex, r) \<and>
      length (results r) = 1 \<and> list_all (\<lambda>m. node_type m = ''function'') (results r)"
    by blast
  from e' l' a' have x': "\<exists>ex r. ?run' = Inr (ex, r) \<and>
      length (results r) = 1 \<and> list_all (\<lambda>m. node_type m = ''class'') (results r)"
    by blast
  from f x f' x' show ?thesis
    by blast
qed

text \<open>
  C7. File discovery should return the files below the target that match the pattern.
  \<open>rglob\<close> also yields a directory whose name matches, and \<open>_get_python_files\<close> does
  not filter its answer: for a directory \<open>pkg.py\<close> beside \<open>test1.py\<close> the list holds the
  directory, and the run ends with the error of reading it.
\<close>

theorem discovery_lists_directory:
  "path_exists package_dir_world (tmpdir @ [''pkg.py'']) \<and>
   \<not> path_is_file package_dir_world (tmpdir @ [''pkg.py'']) \<and>
   get_python_files package_dir_world two_files_config =
     [tmpdir @ [''pkg.py''], tmpdir @ [''test1.py'']] \<and>
   extract package_dir_world (TagExtractor two_files_config) =
     Inl (ReadError ''IsADirectoryError'')"
  by code_simp

text \<open>
  C8. With an empty tag, a target that does not exist, or a target that is a file
  without the suffix \<open>.py\<close>, the construction of the configuration fails with a
  validation error; \<open>extract_tags\<close> returns that error, whatever reading, parsing
  and globbing would return: no file is read and the extraction does not start.
\<close>

theorem invalid_configuration_rejected:
  assumes "tg = [] \<or> \<not> path_exists w (path_resolve w p) \<or>
           (path_is_file w (path_resolve w p) \<and> suffix_of (path_resolve w p) \<noteq> ''.py'')"
  shows "(\<exists>errs. ExtractorConfig w tg p inc_f inc_c pat = Inl (ValidationError errs)) \<and>
         (\<exists>errs. extract_tags w p tg inc_f inc_c = Inl (ValidationError errs)) \<and>
         (\<forall>rd pm gl. extract_tags (w\<lparr>read_text := rd, parse_module := pm, path_rglob := gl\<rparr>)
                        p tg inc_f inc_c = extract_tags w p tg inc_f inc_c)"
proof -
  have c: "\<exists>errs. ExtractorConfig w tg p inc_f inc_c pat = Inl (ValidationError errs)" for pat
    using assms
    by (auto simp: ExtractorConfig_def validate_target_path_def Let_def split: sum.splits)
  have v: "validate_target_path (w\<lparr>read_text := rd, parse_module := pm, path_rglob := gl\<rparr>) p =
           validate_target_path w p" for rd pm gl
    by (simp add: validate_target_path_def Let_def cong: if_cong)
  have "ExtractorConfig (w\<lparr>read_text := rd, parse_module := pm, path_rglob := gl\<rparr>)
          tg p inc_f inc_c pat = ExtractorConfig w tg p inc_f inc_c pat" for rd pm gl pat
    unfolding ExtractorConfig_def v by (rule refl)
  with c [of "''*.py''"] c [of pat] show ?thesis
    by (auto simp: extract_tags_def)
qed

theorem invalid_configuration_rejected_witness:
  "ExtractorConfig two_files_world [] tmpdir True True ''*.py'' =
     Inl (ValidationError [''tag: min_length'']) \<and>
   ExtractorConfig two_files_world ''TODO:'' (tmpdir @ [''missing'']) True True ''*.py'' =
     Inl (ValidationError [''target_path: path does not exist'']) \<and>
   ExtractorConfig two_files_world ''TODO:'' (tmpdir @ [''notes.txt'']) True True ''*.py'' =
     Inl (ValidationError [''target_path: not a Python file'']) \<and>
   (\<exists>errs. extract_tags two_files_world (tmpdir @ [''notes.txt'']) ''TODO:'' True True =
      Inl (ValidationError errs))"
proof -
  have h: "path_is_file two_files_world (path_resolve two_files_world (tmpdir @ [''notes.txt''])) \<and>
           suffix_of (path_resolve two_files_world (tmpdir @ [''notes.txt''])) \<noteq> ''.py''"
    by code_simp
  have e: "ExtractorConfig two_files_world [] tmpdir True True ''*.py'' =
     Inl (ValidationError [''tag: min_length''])"
   "ExtractorConfig two_files_world ''TODO:'' (tmpdir @ [''missing'']) True True ''*.py'' =
     Inl (ValidationError [''target_path: path does not exist''])"
   "ExtractorConfig two_files_world ''TODO:'' (tmpdir @ [''notes.txt'']) True True ''*.py'' =
     Inl (ValidationError [''target_path: not a Python file''])"
    by code_simp+
  from invalid_configuration_rejected
         [of "''TODO:''" two_files_world "tmpdir @ [''notes.txt'']" True True "''*.py''"] h e
  show ?thesis
    by blast
qed

text \<open>
  C9. \<open>total_matches\<close> is the length of the match sequence, and \<open>group_by_file\<close>
  maps every path to the matches of that path in their order in the sequence and has no
  other keys, so every match is in the group of its own path and in no other.
\<close>

theorem group_by_file_subsequences:
  "total_matches r = length (results r) \<and>
   group_by_file r p =
     (if filter (\<lambda>m. file_path m = p) (results r) = [] then None
      else Some (filter (\<lambda>m. file_path m = p) (results r))) \<and>
   (\<forall>m \<in> set (results r). \<forall>q ms. group_by_file r q = Some ms \<longrightarrow>
      (m \<in> set ms \<longleftrightarrow> q = file_path m))"
proof -
  have g: "group_by_file r q =
     (if filter (\<lambda>m. file_path m = q) (results r) = [] then None
      else Some (filter (\<lambda>m. file_path m = q) (results r)))" for q
    by (simp add: group_by_file_def group_loop_char)
  show ?thesis
    by (auto simp: total_matches_def g split: if_splits)
qed

theorem group_by_file_subsequences_witness:
  "total_matches grouped_result = 3 \<and>
   group_by_file grouped_result [''test1.py''] = Some [tagged_code1, tagged_code2] \<and>
   group_by_file grouped_result [''test2.py''] = Some [tagged_code3] \<and>
   group_by_file grouped_result [''test3.py''] = None"
proof -
  have r: "results grouped_result = [tagged_code1, tagged_code3, tagged_code2]"
    by (simp add: grouped_result_def)
  have p: "file_path tagged_code1 = [''test1.py'']" "file_path tagged_code2 = [''test1.py'']"
    "file_path tagged_code3 = [''test2.py'']"
    by (simp_all add: tagged_code1_def tagged_code2_def tagged_code3_def)
  from group_by_file_subsequences [of grouped_result "[''test1.py'']"]
    group_by_file_subsequences [of grouped_result "[''test2.py'']"]
    group_by_file_subsequences [of grouped_result "[''test3.py'']"]
  show ?thesis
    by (simp add: r p)
qed

text \<open>
  C10. The function candidates collected with classes excluded are the function
  candidates among those collected with classes included, in the same order, and the
  same holds for the class candidates when functions are excluded; so a function nested
  in a class is found when classes are excluded.
\<close>

theorem other_kind_flag_irrelevant:
  "(collect tg inc_f True module = Inr rs \<longrightarrow>
      collect tg inc_f False module = Inr (filter (\<lambda>r. node_type r = ''function'') rs)) \<and>
   (collect tg True inc_c module = Inr rs \<longrightarrow>
      collect tg False inc_c module = Inr (filter (\<lambda>r. node_type r = ''class'') rs))"
proof (intro conjI impI)
  assume a: "collect tg inc_f True module = Inr rs"
  have "list_all (\<lambda>d. 1 \<le> node_line d) (filter (selected tg inc_f False) (decls_list module))"
    using collect_Inr(2) [OF a] selected_without_classes [of tg inc_f]
    by (auto simp: list_all_iff)
  then show "collect tg inc_f False module = Inr (filter (\<lambda>r. node_type r = ''function'') rs)"
    unfolding collect_Inr(1) [OF a] filter_candidates selected_without_classes
    by (simp add: collect_def visit_children_char)
next
  assume a: "collect tg True inc_c module = Inr rs"
  have "list_all (\<lambda>d. 1 \<le> node_line d) (filter (selected tg False inc_c) (decls_list module))"
    using collect_Inr(2) [OF a] selected_without_functions [of tg inc_c]
    by (auto simp: list_all_iff)
  then show "collect tg False inc_c module = Inr (filter (\<lambda>r. node_type r = ''class'') rs)"
    unfolding collect_Inr(1) [OF a] filter_candidates selected_without_functions
    by (simp add: collect_def visit_children_char)
qed

theorem other_kind_flag_irrelevant_witness:
  "collect ''TODO:'' True True [outer_node] = Inr [candidate outer_node, candidate inner_node] \<and>
   collect ''TODO:'' True False [outer_node] = Inr [candidate inner_node] \<and>
   collect ''TODO:'' False True [outer_node] = Inr [candidate outer_node]"
proof -
  have a: "collect ''TODO:'' True True [outer_node] =
             Inr [candidate outer_node, candidate inner_node]"
    by code_simp
  have t: "node_type (candidate outer_node) = ''class''"
    "node_type (candidate inner_node) = ''function''"
    by (simp_all add: outer_node_def inner_node_def)
  from other_kind_flag_irrelevant
         [of "''TODO:''" True "[outer_node]" "[candidate outer_node, candidate inner_node]" True] a
  show ?thesis
    by (simp add: t)
qed

end
